theory Spec2Isabelle
  imports Main
begin

section \<open>Text primitives\<close>

text \<open>
  A Python \<open>str\<close> is a sequence of code points and \<open>len\<close> counts code points. In this
  development one \<open>char\<close> stands for one code point, so the model covers the texts whose
  code points lie below 256. \<open>str.strip()\<close> and the regular expression class \<open>\s\<close> use
  the same test (\<open>str.isspace\<close>); below 256 it holds for the twelve characters listed here.
\<close>

definition whitespace_chars :: "char list" where
  "whitespace_chars =
     [CHR 0x09, CHR 0x0A, CHR 0x0B, CHR 0x0C, CHR 0x0D,
      CHR 0x1C, CHR 0x1D, CHR 0x1E, CHR 0x1F, CHR 0x20, CHR 0x85, CHR 0xA0]"

definition isspace :: "char \<Rightarrow> bool" where
  "isspace c = (c \<in> set whitespace_chars)"

text \<open>\<open>s.strip()\<close>: whitespace removed at both ends.\<close>

definition strip :: "string \<Rightarrow> string" where
  "strip s = rev (dropWhile isspace (rev (dropWhile isspace s)))"

text \<open>\<open>sep.join(parts)\<close>.\<close>

fun join :: "string \<Rightarrow> string list \<Rightarrow> string" where
  "join sep [] = []"
| "join sep [p] = p"
| "join sep (p # q # ps) = p @ sep @ join sep (q # ps)"

text \<open>
  \<open>s.lower()\<close> on code points below 256: the letters A to Z and the upper-case letters
  of the Latin-1 block (0xC0 to 0xDE without the multiplication sign 0xD7) move up by 32.
\<close>

definition lower_char :: "char \<Rightarrow> char" where
  "lower_char c =
     (let n = (of_char c :: nat)
      in if (65 \<le> n \<and> n \<le> 90) \<or> (192 \<le> n \<and> n \<le> 222 \<and> n \<noteq> 215)
         then char_of (n + 32) else c)"

definition lower :: "string \<Rightarrow> string" where
  "lower s = map lower_char s"

text \<open>The Python slice \<open>xs[-n:]\<close> for \<open>n \<ge> 0\<close>; \<open>xs[-0:]\<close> is the whole list.\<close>

definition last_entries :: "nat \<Rightarrow> 'a list \<Rightarrow> 'a list" where
  "last_entries n xs = (if n = 0 then xs else drop (length xs - n) xs)"

section \<open>Response chunking (cogs/chat.py, \<open>_format_response\<close>)\<close>

definition is_sentence_end :: "char \<Rightarrow> bool" where
  "is_sentence_end c = (c = CHR ''.'' \<or> c = CHR ''!'' \<or> c = CHR ''?'')"

text \<open>
  \<open>re.split(r'(?<=[.!?])\s+', response)\<close>. A match starts at a whitespace character
  whose predecessor is one of \<open>.\<close>, \<open>!\<close>, \<open>?\<close> and takes the whole whitespace run. The
  first argument holds the characters of the current piece, last one first; a piece never
  starts right after a sentence end, so its head is the predecessor that the lookbehind
  inspects. The call for a whole text is \<open>re_split_sentences [] text\<close>.
\<close>

function re_split_sentences :: "string \<Rightarrow> string \<Rightarrow> string list" where
  "re_split_sentences acc [] = [rev acc]"
| "re_split_sentences acc (c # cs) =
     (if isspace c \<and> acc \<noteq> [] \<and> is_sentence_end (hd acc)
      then rev acc # re_split_sentences [] (dropWhile isspace cs)
      else re_split_sentences (c # acc) cs)"
  by pat_completeness auto
termination
  by (relation "measure (\<lambda>(acc, s). length s)")
     (auto simp: length_dropWhile_le less_Suc_eq_le)

text \<open>
  The loop over the sentences; the state is the list \<open>parts\<close> and the string
  \<open>current_part\<close>, returned when the sentences are used up.
\<close>

fun pack_sentences ::
  "int \<Rightarrow> string list \<Rightarrow> string \<Rightarrow> string list \<Rightarrow> string list \<times> string" where
  "pack_sentences L parts current_part [] = (parts, current_part)"
| "pack_sentences L parts current_part (sentence # rest) =
     (if int (length current_part) + int (length sentence) + 1 \<le> L
      then pack_sentences L parts (current_part @ strip (sentence @ '' '')) rest
      else pack_sentences L
             (if current_part \<noteq> [] then parts @ [strip current_part] else parts)
             (sentence @ '' '') rest)"

text \<open>
  \<open>_format_response\<close>, with the attribute \<open>self.max_message_length\<close> as first argument.
\<close>

definition format_response :: "int \<Rightarrow> string \<Rightarrow> string list" where
  "format_response max_message_length response =
     (if int (length response) \<le> max_message_length then [response]
      else (case pack_sentences max_message_length [] []
                   (re_split_sentences [] response) of
              (parts, current_part) \<Rightarrow>
                if current_part \<noteq> [] then parts @ [strip current_part] else parts))"

text \<open>The value that \<open>ChatCog.__init__\<close> gives to \<open>self.max_message_length\<close>.\<close>

definition max_message_length :: int where
  "max_message_length = 2000"

text \<open>
  A string is trimmed when it has no whitespace at either end. Whitespace normalisation,
  in the words of the specification: the text as its sequence of whitespace-separated
  words (Python's \<open>text.split()\<close>).
\<close>

definition trimmed :: "string \<Rightarrow> bool" where
  "trimmed s = (s = [] \<or> (\<not> isspace (hd s) \<and> \<not> isspace (last s)))"

fun spec_words :: "string \<Rightarrow> string \<Rightarrow> string list" where
  "spec_words acc [] = (if acc = [] then [] else [rev acc])"
| "spec_words acc (c # cs) =
     (if isspace c
      then (if acc = [] then spec_words [] cs else rev acc # spec_words [] cs)
      else spec_words (c # acc) cs)"

definition spec_normalize_whitespace :: "string \<Rightarrow> string list" where
  "spec_normalize_whitespace s = spec_words [] s"

section \<open>Configuration (config.py)\<close>

text \<open>
  The environment is a finite map from names to values; \<open>os.getenv(name)\<close> is the lookup
  and \<open>os.getenv(name, default)\<close> the lookup with a default. A raised exception is a
  value of \<open>py_exception\<close>; the \<open>openai\<close> classes \<open>RateLimitError\<close> and
  \<open>APITimeoutError\<close> are subclasses of \<open>APIError\<close>, every class is a subclass of
  \<open>Exception\<close>.
\<close>

datatype py_exception =
    RateLimitError
  | APITimeoutError
  | APIError
  | IndexError
  | AttributeError
  | RuntimeError string
  | ValueError string
  | OtherException string

record config =
  discord_token :: "string option"
  ai_provider :: string
  openai_api_key :: "string option"
  openai_model :: string
  gemini_api_key :: "string option"
  gemini_model :: string

definition getenv_default :: "(string \<rightharpoonup> string) \<Rightarrow> string \<Rightarrow> string \<Rightarrow> string" where
  "getenv_default env name dflt = (case env name of None \<Rightarrow> dflt | Some v \<Rightarrow> v)"

text \<open>Python truth of an optional string: \<open>None\<close> and \<open>''\<close> are false.\<close>

definition truthy :: "string option \<Rightarrow> bool" where
  "truthy v = (case v of None \<Rightarrow> False | Some s \<Rightarrow> s \<noteq> [])"

definition valid_openai_models :: "string list" where
  "valid_openai_models =
     [''gpt-4o-mini'', ''gpt-4o'', ''gpt-4.1-mini'', ''gpt-4.1'',
      ''gpt-4'', ''gpt-4-turbo'', ''gpt-3.5-turbo'', ''gpt-3.5-turbo-16k'']"

definition valid_gemini_models :: "string list" where
  "valid_gemini_models =
     [''gemini-2.5-flash'', ''gemini-1.5-flash'', ''gemini-1.5-pro'',
      ''gemini-1.0-pro'', ''gemini-1.5-flash-8b'']"

text \<open>\<open>Config._validate_config\<close>: it raises or leaves the normalised configuration.\<close>

definition validate_config :: "config \<Rightarrow> py_exception + config" where
  "validate_config cfg =
     (if \<not> truthy (discord_token cfg) then Inl (ValueError ''DISCORD_TOKEN is required'')
      else
        let cfg1 = (if ai_provider cfg \<noteq> ''openai'' \<and> ai_provider cfg \<noteq> ''gemini''
                    then cfg\<lparr>ai_provider := ''openai''\<rparr> else cfg)
        in if ai_provider cfg1 = ''openai'' then
             (if \<not> truthy (openai_api_key cfg1)
              then Inl (ValueError ''OPENAI_API_KEY is required for AI_PROVIDER=openai'')
              else Inr (if openai_model cfg1 \<notin> set valid_openai_models
                        then cfg1\<lparr>openai_model := ''gpt-4o-mini''\<rparr> else cfg1))
           else if ai_provider cfg1 = ''gemini'' then
             (if \<not> truthy (gemini_api_key cfg1)
              then Inl (ValueError ''GEMINI_API_KEY is required for AI_PROVIDER=gemini'')
              else Inr (if gemini_model cfg1 \<notin> set valid_gemini_models
                        then cfg1\<lparr>gemini_model := ''gemini-1.5-flash''\<rparr> else cfg1))
           else Inr cfg1)"

text \<open>\<open>Config.__init__\<close>: the fields are read from the environment, then validated.\<close>

definition Config_init :: "(string \<rightharpoonup> string) \<Rightarrow> py_exception + config" where
  "Config_init env =
     validate_config
       \<lparr>discord_token = env ''DISCORD_TOKEN'',
        ai_provider =
          lower (strip (let v = getenv_default env ''AI_PROVIDER'' ''openai''
                        in if v \<noteq> [] then v else ''openai'')),
        openai_api_key = env ''OPENAI_API_KEY'',
        openai_model = getenv_default env ''OPENAI_MODEL'' ''gpt-4o-mini'',
        gemini_api_key = env ''GEMINI_API_KEY'',
        gemini_model = getenv_default env ''GEMINI_MODEL'' ''gemini-1.5-flash''\<rparr>"

text \<open>
  The provider test that \<open>_get_ai_response\<close> and \<open>generate_ai_response\<close> make on every
  call: \<open>if config.ai_provider == 'openai' ... elif ... == 'gemini' ... else raise\<close>.
\<close>

datatype provider_branch = OpenAI_branch | Gemini_branch | Unsupported_branch

definition select_provider :: "config \<Rightarrow> provider_branch" where
  "select_provider cfg =
     (if ai_provider cfg = ''openai'' then OpenAI_branch
      else if ai_provider cfg = ''gemini'' then Gemini_branch
      else Unsupported_branch)"

section \<open>Conversation history and prompt context of the bot cog (cogs/chat.py)\<close>

text \<open>
  A history entry is a dictionary with the keys \<open>role\<close> and \<open>content\<close>; the store
  \<open>self.conversation_history\<close> is a dictionary from user ids to lists of entries.
\<close>

record message =
  role :: string
  content :: string

type_synonym cog_store = "int \<rightharpoonup> message list"

definition max_history_length :: nat where
  "max_history_length = 10"

text \<open>\<open>store.get(user_id, [])\<close>.\<close>

definition history_of :: "('k \<rightharpoonup> 'a list) \<Rightarrow> 'k \<Rightarrow> 'a list" where
  "history_of h user_id = (case h user_id of None \<Rightarrow> [] | Some entries \<Rightarrow> entries)"

definition update_conversation_history ::
  "cog_store \<Rightarrow> int \<Rightarrow> string \<Rightarrow> string \<Rightarrow> cog_store" where
  "update_conversation_history h user_id user_message ai_response =
     (let h1 = (if h user_id = None then h(user_id \<mapsto> []) else h);
          extended = history_of h1 user_id @
            [\<lparr>role = ''user'', content = user_message\<rparr>,
             \<lparr>role = ''assistant'', content = ai_response\<rparr>];
          h2 = h1(user_id \<mapsto> extended)
      in if length extended > max_history_length * 2
         then h2(user_id \<mapsto> last_entries (max_history_length * 2) extended)
         else h2)"

definition cog_system_prompt :: string where
  "cog_system_prompt = ''You are a helpful AI assistant in a Discord server. Be concise, friendly, and helpful. Keep responses under 2000 characters when possible.''"

definition build_conversation_context :: "cog_store \<Rightarrow> int \<Rightarrow> string \<Rightarrow> message list" where
  "build_conversation_context h user_id current_message =
     (let messages = [\<lparr>role = ''system'', content = cog_system_prompt\<rparr>];
          messages = (case h user_id of
                        None \<Rightarrow> messages
                      | Some entries \<Rightarrow> foldl (\<lambda>ms msg. ms @ [msg]) messages entries)
      in messages @ [\<lparr>role = ''user'', content = current_message\<rparr>])"

section \<open>The provider call of the bot cog (cogs/chat.py, \<open>_get_ai_response\<close>)\<close>

text \<open>
  The two provider SDKs are outside the program; they enter the model as functions that
  raise or return. The OpenAI call takes the model name and the messages and returns the
  \<open>message.content\<close> of each choice (\<open>None\<close> for a missing content). The Gemini call
  takes the model name, the system instruction and the prompt; of its result the code
  reads the attribute \<open>text\<close> (\<open>None\<close> when it is absent) and, for each candidate,
  \<open>content.parts[0].text\<close> (\<open>None\<close> when that access raises or yields \<open>None\<close>).
\<close>

datatype 'a outcome = Raises py_exception | Returns 'a

record gemini_result =
  result_text :: "string option"
  result_candidates :: "string option list"

type_synonym openai_api = "string \<Rightarrow> message list \<Rightarrow> string option list outcome"

type_synonym gemini_api = "string \<Rightarrow> string option \<Rightarrow> string \<Rightarrow> gemini_result outcome"

text \<open>The loop that flattens the messages into the system instruction and the parts.\<close>

definition flatten_step :: "string \<times> string list \<Rightarrow> message \<Rightarrow> string \<times> string list" where
  "flatten_step st m =
     (case st of (system_instructions, parts) \<Rightarrow>
        if role m = ''system'' then (content m, parts)
        else if role m = ''user'' then (system_instructions, parts @ [''User: '' @ content m])
        else if role m = ''assistant''
        then (system_instructions, parts @ [''Assistant: '' @ content m])
        else (system_instructions, parts))"

text \<open>The nested function \<open>_gen\<close> after \<open>generate_content\<close> has returned.\<close>

definition gemini_extract :: "gemini_result \<Rightarrow> string" where
  "gemini_extract result =
     (let text = strip (case result_text result of None \<Rightarrow> [] | Some t \<Rightarrow> t)
      in if text \<noteq> [] then text
         else if result_candidates result \<noteq> [] then
           (let collected = [t. Some t \<leftarrow> result_candidates result]
            in strip (join [CHR 0x0A] [p \<leftarrow> collected. p \<noteq> []]))
         else [])"

text \<open>
  The body of the \<open>try\<close> up to the history update: the text of the provider, or the
  exception that leaves the body.
\<close>

definition provider_response ::
  "config \<Rightarrow> openai_api \<Rightarrow> gemini_api \<Rightarrow> message list \<Rightarrow> py_exception + string" where
  "provider_response cfg openai_create gemini_generate messages =
     (case select_provider cfg of
        OpenAI_branch \<Rightarrow>
          (case openai_create (openai_model cfg) messages of
             Raises e \<Rightarrow> Inl e
           | Returns choices \<Rightarrow>
               (case choices of
                  [] \<Rightarrow> Inl IndexError
                | c # _ \<Rightarrow> (case c of None \<Rightarrow> Inl AttributeError
                                      | Some t \<Rightarrow> Inr (strip t))))
      | Gemini_branch \<Rightarrow>
          (case foldl flatten_step ([], []) messages of
             (system_instructions, parts) \<Rightarrow>
               (case gemini_generate (gemini_model cfg)
                       (if system_instructions \<noteq> [] then Some system_instructions else None)
                       (join [CHR 0x0A] parts) of
                  Raises e \<Rightarrow> Inl e
                | Returns result \<Rightarrow>
                    (let ai_response = gemini_extract result
                     in if ai_response = []
                        then Inl (RuntimeError ''Empty response from Gemini'')
                        else Inr ai_response)))
      | Unsupported_branch \<Rightarrow>
          Inl (ValueError (''Unsupported AI provider: '' @ ai_provider cfg)))"

text \<open>The \<open>except\<close> clauses, in the order of the source.\<close>

fun failure_message :: "py_exception \<Rightarrow> string" where
  "failure_message RateLimitError =
     ''I'm experiencing high traffic right now. Please try again in a moment.''"
| "failure_message APITimeoutError =
     ''The AI service is taking longer than expected. Please try again.''"
| "failure_message APIError =
     ''I'm experiencing technical difficulties. Please try again later.''"
| "failure_message e = ''An unexpected error occurred. Please try again later.''"

text \<open>\<open>_get_ai_response\<close>: the store after the call and the text returned.\<close>

definition get_ai_response ::
  "config \<Rightarrow> openai_api \<Rightarrow> gemini_api \<Rightarrow> cog_store \<Rightarrow> int \<Rightarrow> string \<Rightarrow> cog_store \<times> string" where
  "get_ai_response cfg openai_create gemini_generate h user_id message =
     (case provider_response cfg openai_create gemini_generate
             (build_conversation_context h user_id message) of
        Inr ai_response \<Rightarrow>
          (update_conversation_history h user_id message ai_response, ai_response)
      | Inl e \<Rightarrow> (h, failure_message e))"

text \<open>
  A run of the cog's store: the exchanges (user id, user message, response) recorded one
  after the other, starting from the empty dictionary of \<open>ChatCog.__init__\<close>; and the
  entries that one user's exchanges have produced, oldest first.
\<close>

definition cog_run :: "(int \<times> string \<times> string) list \<Rightarrow> cog_store" where
  "cog_run exchanges =
     foldl (\<lambda>h (u, m, a). update_conversation_history h u m a) Map.empty exchanges"

definition exchange_entries :: "int \<Rightarrow> (int \<times> string \<times> string) list \<Rightarrow> message list" where
  "exchange_entries user_id exchanges =
     concat (map (\<lambda>(u, m, a).
                    if u = user_id
                    then [\<lparr>role = ''user'', content = m\<rparr>, \<lparr>role = ''assistant'', content = a\<rparr>]
                    else []) exchanges)"

section \<open>The web front door (web_server.py)\<close>

text \<open>
  The web store keeps entries with the keys \<open>role\<close>, \<open>content\<close> and \<open>timestamp\<close>,
  under the session's user id. The clock readings (\<open>datetime.now().isoformat()\<close>) are
  arguments of the model.
\<close>

record history_item = message +
  timestamp :: string

type_synonym web_store = "string \<rightharpoonup> history_item list"

definition web_system_prompt :: string where
  "web_system_prompt = ''You are a helpful AI assistant in a Discord/web app. Be concise, friendly, and accurate.''"

definition build_messages_step :: "message list \<Rightarrow> history_item \<Rightarrow> message list" where
  "build_messages_step messages item =
     (let r = (if role item = ''ai'' then ''assistant'' else role item);
          c = content item
      in if c \<noteq> [] then messages @ [\<lparr>role = r, content = c\<rparr>] else messages)"

definition build_messages :: "web_store \<Rightarrow> string \<Rightarrow> string \<Rightarrow> message list" where
  "build_messages h user_id current_message =
     (let messages = [\<lparr>role = ''system'', content = web_system_prompt\<rparr>];
          history = last_entries 20 (history_of h user_id);
          messages = foldl build_messages_step messages history
      in messages @ [\<lparr>role = ''user'', content = current_message\<rparr>])"

definition web_fallback_text :: string where
  "web_fallback_text = ''The AI service is currently unavailable. Verify API keys, model names, and outbound network connectivity.''"

text \<open>The body of the \<open>try\<close> of \<open>generate_ai_response\<close>.\<close>

definition web_provider_response ::
  "config \<Rightarrow> openai_api \<Rightarrow> gemini_api \<Rightarrow> message list \<Rightarrow> py_exception + string" where
  "web_provider_response cfg openai_create gemini_generate messages =
     (case select_provider cfg of
        OpenAI_branch \<Rightarrow>
          (let model = strip (if openai_model cfg \<noteq> [] then openai_model cfg
                              else ''gpt-4o-mini'')
           in case openai_create model messages of
                Raises e \<Rightarrow> Inl e
              | Returns choices \<Rightarrow>
                  (case choices of
                     [] \<Rightarrow> Inl IndexError
                   | c # _ \<Rightarrow>
                       (let text = strip (case c of None \<Rightarrow> [] | Some t \<Rightarrow> t)
                        in if text \<noteq> [] then Inr text
                           else Inl (RuntimeError ''Empty response from OpenAI''))))
      | Gemini_branch \<Rightarrow>
          (let model_name = strip (if gemini_model cfg \<noteq> [] then gemini_model cfg
                                   else ''gemini-1.5-flash'')
           in case foldl flatten_step ([], []) messages of
                (system_instructions, history_parts) \<Rightarrow>
                  (case gemini_generate model_name
                          (if system_instructions \<noteq> [] then Some system_instructions else None)
                          (join [CHR 0x0A] [p \<leftarrow> history_parts. p \<noteq> []]) of
                     Raises e \<Rightarrow> Inl e
                   | Returns result \<Rightarrow>
                       (let text = strip (case result_text result of
                                            None \<Rightarrow> [] | Some t \<Rightarrow> t)
                        in if text \<noteq> [] then Inr text
                           else
                             (let parts = [t. Some t \<leftarrow> result_candidates result];
                                  text2 = strip (join [CHR 0x0A] [p \<leftarrow> parts. p \<noteq> []])
                              in if result_candidates result \<noteq> [] \<and> text2 \<noteq> []
                                 then Inr text2
                                 else Inl (RuntimeError ''Empty response from Gemini'')))))
      | Unsupported_branch \<Rightarrow>
          Inl (ValueError (''Unsupported AI provider: '' @ ai_provider cfg)))"

text \<open>\<open>generate_ai_response\<close>: every exception becomes the fallback text.\<close>

definition generate_ai_response ::
  "config \<Rightarrow> openai_api \<Rightarrow> gemini_api \<Rightarrow> web_store \<Rightarrow> string \<Rightarrow> string \<Rightarrow> string" where
  "generate_ai_response cfg openai_create gemini_generate h user_id message =
     (case web_provider_response cfg openai_create gemini_generate
             (build_messages h user_id message) of
        Inr text \<Rightarrow> text
      | Inl e \<Rightarrow> web_fallback_text)"

text \<open>
  The route \<open>/api/chat\<close> for a JSON body with the field \<open>message\<close>: the store after the
  request and the reply (the response text with its timestamp, or an error with its
  status). \<open>t_user\<close>, \<open>t_ai\<close> and \<open>t_reply\<close> are the three clock readings.
\<close>

datatype http_reply = Json_response string string | Json_error string nat

definition chat ::
  "config \<Rightarrow> openai_api \<Rightarrow> gemini_api \<Rightarrow> web_store \<Rightarrow> string \<Rightarrow> string \<Rightarrow>
   string \<Rightarrow> string \<Rightarrow> string \<Rightarrow> web_store \<times> http_reply" where
  "chat cfg openai_create gemini_generate h user_id data_message t_user t_ai t_reply =
     (let message = strip data_message
      in if message = [] then (h, Json_error ''Message cannot be empty'' 400)
         else
           let h1 = (if h user_id = None then h(user_id \<mapsto> []) else h);
               h2 = h1(user_id \<mapsto> history_of h1 user_id @
                      [\<lparr>role = ''user'', content = message, timestamp = t_user\<rparr>]);
               ai_response = generate_ai_response cfg openai_create gemini_generate
                               h2 user_id message;
               h3 = h2(user_id \<mapsto> history_of h2 user_id @
                      [\<lparr>role = ''ai'', content = ai_response, timestamp = t_ai\<rparr>])
           in (h3, Json_response ai_response t_reply))"


section \<open>Predicates used in the statements\<close>

text \<open>
  A chunk is within the limit, or it is one sentence of the split that is longer than the
  limit, with its surrounding whitespace removed.
\<close>

definition chunk_ok :: "int \<Rightarrow> string list \<Rightarrow> string \<Rightarrow> bool" where
  "chunk_ok L sentences c =
     (int (length c) \<le> L \<or>
      (\<exists>s\<in>set sentences. L < int (length s) \<and> c = strip (s @ '' '')))"

text \<open>A string has text when one of its characters is not whitespace.\<close>

definition has_text :: "string \<Rightarrow> bool" where
  "has_text s = (\<exists>c\<in>set s. \<not> isspace c)"

text \<open>
  A history alternates when it is a sequence of pairs, a \<open>user\<close> entry followed by an
  \<open>assistant\<close> entry.
\<close>

fun alternating :: "message list \<Rightarrow> bool" where
  "alternating [] = True"
| "alternating [x] = False"
| "alternating (x # y # rest) =
     (role x = ''user'' \<and> role y = ''assistant'' \<and> alternating rest)"

section \<open>Runs of the web store and concrete inputs\<close>

text \<open>
  A configuration as \<open>Config.__init__\<close> leaves it for the OpenAI provider, and provider
  functions with a fixed behaviour: one that answers, one that answers with blanks only,
  one that raises the rate-limit error, and a Gemini function for runs that never call it.
\<close>

definition example_config :: config where
  "example_config =
     \<lparr>discord_token = Some ''token'', ai_provider = ''openai'',
      openai_api_key = Some ''key'', openai_model = ''gpt-4o-mini'',
      gemini_api_key = None, gemini_model = ''gemini-1.5-flash''\<rparr>"

definition answering_openai :: openai_api where
  "answering_openai model messages = Returns [Some ''Hello!'']"

definition blank_openai :: openai_api where
  "blank_openai model messages = Returns [Some ''   '']"

definition rate_limited_openai :: openai_api where
  "rate_limited_openai model messages = Raises RateLimitError"

definition unused_gemini :: gemini_api where
  "unused_gemini model_name system_instruction prompt =
     Raises (OtherException ''not configured'')"

text \<open>
  A run of the web store: the requests (user id, message field, the three clock readings)
  handled by \<open>chat\<close> one after the other, starting from the empty dictionary.
\<close>

definition web_run ::
  "config \<Rightarrow> openai_api \<Rightarrow> gemini_api \<Rightarrow>
   (string \<times> string \<times> string \<times> string \<times> string) list \<Rightarrow> web_store" where
  "web_run cfg openai_create gemini_generate requests =
     foldl (\<lambda>h (user_id, data_message, t_user, t_ai, t_reply).
              fst (chat cfg openai_create gemini_generate h user_id data_message
                     t_user t_ai t_reply))
       Map.empty requests"

text \<open>
  Two environments: one that selects OpenAI and names a Gemini model outside the
  allow-list, one that selects Gemini in mixed case with surrounding blanks. And a text
  of 2001 characters: two short sentences followed by 1995 letters.
\<close>

definition inactive_model_env :: "string \<rightharpoonup> string" where
  "inactive_model_env =
     map_of [(''DISCORD_TOKEN'', ''token''), (''AI_PROVIDER'', ''openai''),
             (''OPENAI_API_KEY'', ''key''), (''GEMINI_MODEL'', ''bogus'')]"

definition mixed_case_env :: "string \<rightharpoonup> string" where
  "mixed_case_env =
     map_of [(''DISCORD_TOKEN'', ''token''), (''AI_PROVIDER'', '' GeMiNi ''),
             (''GEMINI_API_KEY'', ''key''), (''GEMINI_MODEL'', ''bogus'')]"

definition two_sentence_text :: string where
  "two_sentence_text = ''A. B. '' @ replicate 1995 CHR ''x''"

text \<open>
  What \<open>_build_messages\<close> makes of a stored entry: the role \<open>ai\<close> becomes
  \<open>assistant\<close>, the timestamp is dropped. The entries that \<open>chat\<close> stores have the
  role \<open>user\<close> or \<open>ai\<close> and a content that is not empty.
\<close>

definition history_item_message :: "history_item \<Rightarrow> message" where
  "history_item_message item =
     \<lparr>role = (if role item = ''ai'' then ''assistant'' else role item),
      content = content item\<rparr>"


section \<open>Whitespace stripping\<close>

text \<open>The equations that evaluate the text primitives on a literal.\<close>

lemmas text_eval = isspace_def whitespace_chars_def is_sentence_end_def strip_def

lemma length_strip_le: "length (strip s) \<le> length s"
  unfolding strip_def
  by (metis length_rev length_dropWhile_le le_trans)

lemma strip_snoc_space:
  assumes "isspace c"
  shows "strip (s @ [c]) = strip s"
proof (cases "\<forall>x\<in>set s. isspace x")
  case True
  then have "dropWhile isspace (s @ [c]) = []" "dropWhile isspace s = []"
    using assms by auto
  then show ?thesis by (simp only: strip_def rev.simps dropWhile.simps)
next
  case False
  then have "dropWhile isspace (s @ [c]) = dropWhile isspace s @ [c]"
    by (auto simp: dropWhile_append)
  then show ?thesis using assms by (simp add: strip_def)
qed

lemma isspace_blank: "isspace CHR '' ''"
  by (simp add: isspace_def whitespace_chars_def)

lemma length_strip_sentence: "length (strip (s @ '' '')) \<le> length s"
  using strip_snoc_space [OF isspace_blank, of s] length_strip_le [of s] by simp

lemma last_dropWhile: "dropWhile P xs \<noteq> [] \<Longrightarrow> last (dropWhile P xs) = last xs"
  by (induction xs) (auto split: if_splits)

lemma trimmed_strip: "trimmed (strip s)"
proof (cases "strip s = []")
  case True
  then show ?thesis by (simp add: trimmed_def)
next
  case False
  define t where "t = dropWhile isspace s"
  define u where "u = dropWhile isspace (rev t)"
  have su: "strip s = rev u" by (simp add: strip_def t_def u_def)
  with False have u: "u \<noteq> []" by simp
  then have rt: "rev t \<noteq> []" by (auto simp: u_def)
  then have t: "t \<noteq> []" by simp
  have "\<not> isspace (hd u)" using u unfolding u_def by (rule hd_dropWhile)
  then have l: "\<not> isspace (last (strip s))" using u by (simp add: su last_rev)
  have "last u = last (rev t)" using u unfolding u_def by (rule last_dropWhile)
  also have "\<dots> = hd t" using t by (simp add: last_rev)
  finally have "hd (strip s) = hd t" using u by (simp add: su hd_rev)
  moreover have "\<not> isspace (hd t)" using t unfolding t_def by (rule hd_dropWhile)
  ultimately show ?thesis using l by (simp add: trimmed_def)
qed

lemma strip_eq_Nil_iff: "strip s = [] \<longleftrightarrow> (\<forall>c\<in>set s. isspace c)"
proof
  assume "strip s = []"
  then have "dropWhile isspace (rev (dropWhile isspace s)) = []" by (simp add: strip_def)
  then have "\<forall>c\<in>set (rev (dropWhile isspace s)). isspace c" by (simp add: dropWhile_eq_Nil_conv)
  then have a: "\<forall>c\<in>set (dropWhile isspace s). isspace c" by simp
  show "\<forall>c\<in>set s. isspace c"
  proof
    fix c assume "c \<in> set s"
    then have "c \<in> set (takeWhile isspace s) \<or> c \<in> set (dropWhile isspace s)"
      by (metis Un_iff set_append takeWhile_dropWhile_id)
    then show "isspace c" using a by (auto dest: set_takeWhileD)
  qed
next
  assume "\<forall>c\<in>set s. isspace c"
  then have "dropWhile isspace s = []" by simp
  then show "strip s = []" by (simp only: strip_def rev.simps dropWhile.simps)
qed

section \<open>The packing loop of the chunker\<close>

lemma chunk_ok_sentence:
  assumes "s \<in> set S"
  shows "chunk_ok L S (strip (s @ '' ''))"
proof (cases "int (length s) \<le> L")
  case True
  then have "int (length (strip (s @ '' ''))) \<le> L"
    using length_strip_sentence [of s] by linarith
  then show ?thesis by (simp add: chunk_ok_def)
next
  case False
  then show ?thesis using assms unfolding chunk_ok_def by (intro disjI2 bexI [of _ s]) auto
qed

lemma chunk_ok_short: "int (length cur) \<le> L \<Longrightarrow> chunk_ok L S (strip cur)"
  using length_strip_le [of cur] by (auto simp: chunk_ok_def)

lemma pack_sentences_chunk_ok:
  assumes "pack_sentences L parts cur ss = (parts', cur')"
    and "\<forall>c\<in>set parts. chunk_ok L S c"
    and "cur = [] \<or> chunk_ok L S (strip cur)"
    and "set ss \<subseteq> set S"
  shows "(\<forall>c\<in>set parts'. chunk_ok L S c) \<and> (cur' = [] \<or> chunk_ok L S (strip cur'))"
  using assms
proof (induction ss arbitrary: parts cur)
  case Nil
  then show ?case by simp
next
  case (Cons s ss)
  show ?case
  proof (cases "int (length cur) + int (length s) + 1 \<le> L")
    case True
    let ?cur = "cur @ strip (s @ '' '')"
    have "int (length ?cur) \<le> L"
      using True length_strip_sentence [of s] by simp
    then have ok: "chunk_ok L S (strip ?cur)" by (rule chunk_ok_short)
    have "pack_sentences L parts ?cur ss = (parts', cur')"
      using Cons.prems(1) True by simp
    from Cons.IH [OF this Cons.prems(2)] ok Cons.prems(4) show ?thesis by simp
  next
    case False
    let ?parts = "if cur \<noteq> [] then parts @ [strip cur] else parts"
    have p: "pack_sentences L ?parts (s @ '' '') ss = (parts', cur')"
      using Cons.prems(1) False by simp
    have a: "\<forall>c\<in>set ?parts. chunk_ok L S c"
      using Cons.prems(2,3) by auto
    have b: "s @ '' '' = [] \<or> chunk_ok L S (strip (s @ '' ''))"
      using Cons.prems(4) chunk_ok_sentence [of s S L] by simp
    from Cons.IH [OF p a b] Cons.prems(4) show ?thesis by simp
  qed
qed

lemma format_response_chunk_ok:
  assumes "c \<in> set (format_response L response)"
  shows "chunk_ok L (re_split_sentences [] response) c"
proof (cases "int (length response) \<le> L")
  case True
  then show ?thesis using assms by (simp add: format_response_def chunk_ok_def)
next
  case False
  obtain parts cur where p:
    "pack_sentences L [] [] (re_split_sentences [] response) = (parts, cur)"
    by (cases "pack_sentences L [] [] (re_split_sentences [] response)")
  have "(\<forall>c\<in>set parts. chunk_ok L (re_split_sentences [] response) c) \<and>
        (cur = [] \<or> chunk_ok L (re_split_sentences [] response) (strip cur))"
    by (rule pack_sentences_chunk_ok [OF p]) simp_all
  then show ?thesis using assms False p
    by (auto simp: format_response_def split: if_splits)
qed

lemma pack_sentences_trimmed:
  assumes "pack_sentences L parts cur ss = (parts', cur')"
    and "\<forall>c\<in>set parts. trimmed c"
  shows "\<forall>c\<in>set parts'. trimmed c"
  using assms
proof (induction ss arbitrary: parts cur)
  case Nil
  then show ?case by simp
next
  case (Cons s ss)
  show ?case
  proof (cases "int (length cur) + int (length s) + 1 \<le> L")
    case True
    then have "pack_sentences L parts (cur @ strip (s @ '' '')) ss = (parts', cur')"
      using Cons.prems(1) by simp
    from Cons.IH [OF this Cons.prems(2)] show ?thesis .
  next
    case False
    let ?parts = "if cur \<noteq> [] then parts @ [strip cur] else parts"
    have p: "pack_sentences L ?parts (s @ '' '') ss = (parts', cur')"
      using Cons.prems(1) False by simp
    have a: "\<forall>c\<in>set ?parts. trimmed c"
      using Cons.prems(2) trimmed_strip by auto
    from Cons.IH [OF p a] show ?thesis .
  qed
qed

lemma strip_nonempty: "has_text s \<Longrightarrow> strip s \<noteq> []"
  by (auto simp: has_text_def strip_eq_Nil_iff)

lemma has_text_strip: "has_text s \<Longrightarrow> has_text (strip s)"
proof -
  assume h: "has_text s"
  then have ne: "strip s \<noteq> []" by (rule strip_nonempty)
  have "trimmed (strip s)" by (rule trimmed_strip)
  with ne have "\<not> isspace (hd (strip s))" by (simp add: trimmed_def)
  moreover have "hd (strip s) \<in> set (strip s)" using ne by simp
  ultimately show ?thesis unfolding has_text_def by blast
qed

lemma pack_sentences_nonempty:
  assumes "pack_sentences L parts cur ss = (parts', cur')"
    and "\<forall>c\<in>set parts. c \<noteq> []"
    and "cur = [] \<or> has_text cur"
    and "\<forall>s\<in>set ss. has_text s"
  shows "(\<forall>c\<in>set parts'. c \<noteq> []) \<and> (cur' = [] \<or> has_text cur')"
  using assms
proof (induction ss arbitrary: parts cur)
  case Nil
  then show ?case by simp
next
  case (Cons s ss)
  have hs: "has_text s" using Cons.prems(4) by simp
  show ?case
  proof (cases "int (length cur) + int (length s) + 1 \<le> L")
    case True
    let ?cur = "cur @ strip (s @ '' '')"
    have "has_text (s @ '' '')" using hs by (auto simp: has_text_def)
    then have "has_text (strip (s @ '' ''))" by (rule has_text_strip)
    then have ok: "?cur = [] \<or> has_text ?cur" by (auto simp: has_text_def)
    have p: "pack_sentences L parts ?cur ss = (parts', cur')"
      using Cons.prems(1) True by simp
    from Cons.IH [OF p Cons.prems(2) ok] Cons.prems(4) show ?thesis by simp
  next
    case False
    let ?parts = "if cur \<noteq> [] then parts @ [strip cur] else parts"
    have p: "pack_sentences L ?parts (s @ '' '') ss = (parts', cur')"
      using Cons.prems(1) False by simp
    have a: "\<forall>c\<in>set ?parts. c \<noteq> []"
      using Cons.prems(2,3) strip_nonempty by auto
    have b: "s @ '' '' = [] \<or> has_text (s @ '' '')"
      using hs by (auto simp: has_text_def)
    from Cons.IH [OF p a b] Cons.prems(4) show ?thesis by simp
  qed
qed

section \<open>The history of the bot cog\<close>

lemma history_of_update_same:
  "history_of (update_conversation_history h u m a) u =
     last_entries (2 * max_history_length)
       (history_of h u @ [\<lparr>role = ''user'', content = m\<rparr>, \<lparr>role = ''assistant'', content = a\<rparr>])"
  by (auto simp: update_conversation_history_def history_of_def last_entries_def Let_def
        max_history_length_def split: option.splits)

lemma history_of_update_other:
  "v \<noteq> u \<Longrightarrow> history_of (update_conversation_history h u m a) v = history_of h v"
  by (auto simp: update_conversation_history_def history_of_def Let_def split: option.splits)

lemma last_entries_append:
  "last_entries n (last_entries n xs @ ys) = last_entries n (xs @ ys)"
proof (cases "n = 0 \<or> length xs \<le> n")
  case True
  then show ?thesis by (auto simp: last_entries_def)
next
  case False
  then have n: "n \<noteq> 0" "n < length xs" by auto
  define j where "j = length xs - n"
  have jle: "j \<le> length xs" by (simp add: j_def)
  have l1: "last_entries n xs = drop j xs"
    using n(1) by (simp add: last_entries_def j_def)
  have len1: "length (drop j xs @ ys) - n = length ys"
    using n(2) unfolding j_def by simp
  have len2: "length (xs @ ys) - n = length ys + j"
    using n(2) unfolding j_def by simp
  have "last_entries n (drop j xs @ ys) = drop (length ys) (drop j xs @ ys)"
    unfolding last_entries_def len1 using n(1) by simp
  also have "\<dots> = drop (length ys) (drop j (xs @ ys))" using jle by simp
  also have "\<dots> = drop (length ys + j) (xs @ ys)" by (simp only: drop_drop)
  also have "\<dots> = last_entries n (xs @ ys)"
    unfolding last_entries_def len2 using n(1) by simp
  finally show ?thesis unfolding l1 .
qed

lemma length_last_entries: "0 < n \<Longrightarrow> length (last_entries n xs) \<le> n"
  by (auto simp: last_entries_def)

lemma cog_run_snoc:
  "cog_run (exs @ [(u, m, a)]) = update_conversation_history (cog_run exs) u m a"
  by (simp add: cog_run_def)

lemma exchange_entries_snoc:
  "exchange_entries v (exs @ [(u, m, a)]) =
     exchange_entries v exs @
       (if u = v then [\<lparr>role = ''user'', content = m\<rparr>, \<lparr>role = ''assistant'', content = a\<rparr>] else [])"
  by (simp add: exchange_entries_def)

lemma cog_run_history:
  "history_of (cog_run exs) v = last_entries (2 * max_history_length) (exchange_entries v exs)"
proof (induction exs rule: rev_induct)
  case Nil
  show ?case by (simp add: cog_run_def exchange_entries_def history_of_def last_entries_def)
next
  case (snoc x exs)
  obtain u m a where x: "x = (u, m, a)" by (cases x)
  show ?case
  proof (cases "u = v")
    case True
    then show ?thesis
      unfolding x cog_run_snoc exchange_entries_snoc
      by (simp add: history_of_update_same snoc.IH last_entries_append)
  next
    case False
    then show ?thesis
      unfolding x cog_run_snoc exchange_entries_snoc
      by (simp add: history_of_update_other snoc.IH)
  qed
qed

lemma alternating_append:
  "alternating xs \<Longrightarrow> alternating ys \<Longrightarrow> alternating (xs @ ys)"
  by (induction xs rule: alternating.induct) auto

lemma alternating_even: "alternating xs \<Longrightarrow> even (length xs)"
  by (induction xs rule: alternating.induct) auto

lemma alternating_drop: "alternating xs \<Longrightarrow> alternating (drop (2 * k) xs)"
proof (induction k arbitrary: xs)
  case 0
  then show ?case by simp
next
  case (Suc k)
  show ?case
  proof (cases xs rule: alternating.cases)
    case 1
    then show ?thesis by simp
  next
    case (2 x)
    then show ?thesis using Suc.prems by simp
  next
    case (3 x y rest)
    then show ?thesis using Suc.prems Suc.IH [of rest] by simp
  qed
qed

lemma alternating_nth:
  "alternating xs \<Longrightarrow> i < length xs \<Longrightarrow>
     role (xs ! i) = (if even i then ''user'' else ''assistant'')"
proof (induction xs arbitrary: i rule: alternating.induct)
  case 1
  then show ?case by simp
next
  case (2 x)
  then show ?case by simp
next
  case (3 x y rest)
  show ?case
  proof (cases i)
    case 0
    then show ?thesis using "3.prems" by simp
  next
    case (Suc j)
    show ?thesis
    proof (cases j)
      case 0
      then show ?thesis using Suc "3.prems" by simp
    next
      case (Suc k)
      then show ?thesis using \<open>i = Suc j\<close> "3.prems" "3.IH" [of k] by simp
    qed
  qed
qed

lemma alternating_exchange_entries: "alternating (exchange_entries v exs)"
proof (induction exs rule: rev_induct)
  case Nil
  show ?case by (simp add: exchange_entries_def)
next
  case (snoc x exs)
  obtain u m a where x: "x = (u, m, a)" by (cases x)
  show ?case unfolding x exchange_entries_snoc
    by (rule alternating_append [OF snoc.IH]) simp
qed

lemma last_entries_even_drop:
  assumes "even (length xs)" "even n"
  shows "\<exists>k. last_entries n xs = drop (2 * k) xs"
proof (cases "n = 0")
  case True
  then have "last_entries n xs = drop (2 * 0) xs" by (simp add: last_entries_def)
  then show ?thesis by blast
next
  case False
  from assms have "even (length xs - n)" by simp
  then obtain k where "length xs - n = 2 * k" by (rule evenE)
  with False have "last_entries n xs = drop (2 * k) xs" by (simp add: last_entries_def)
  then show ?thesis by blast
qed

lemma alternating_last_entries:
  "alternating xs \<Longrightarrow> even n \<Longrightarrow> alternating (last_entries n xs)"
  using last_entries_even_drop [of xs n] alternating_even [of xs] alternating_drop [of xs]
  by auto

lemma alternating_cog_run: "alternating (history_of (cog_run exs) v)"
  unfolding cog_run_history
  by (rule alternating_last_entries [OF alternating_exchange_entries]) simp

section \<open>The web store and the prompt contexts\<close>

lemma chat_rejects_blank:
  "strip data_message = [] \<Longrightarrow>
   chat cfg oa ge h user_id data_message t_user t_ai t_reply =
     (h, Json_error ''Message cannot be empty'' 400)"
  by (simp add: chat_def)

lemma chat_accepts:
  assumes "strip data_message \<noteq> []"
  shows "chat cfg oa ge h user_id data_message t_user t_ai t_reply =
     (h(user_id \<mapsto> history_of h user_id @
          [\<lparr>role = ''user'', content = strip data_message, timestamp = t_user\<rparr>,
           \<lparr>role = ''ai'',
            content = generate_ai_response cfg oa ge
              (h(user_id \<mapsto> history_of h user_id @
                   [\<lparr>role = ''user'', content = strip data_message, timestamp = t_user\<rparr>]))
              user_id (strip data_message),
            timestamp = t_ai\<rparr>]),
      Json_response
        (generate_ai_response cfg oa ge
           (h(user_id \<mapsto> history_of h user_id @
                [\<lparr>role = ''user'', content = strip data_message, timestamp = t_user\<rparr>]))
           user_id (strip data_message))
        t_reply)"
  using assms by (auto simp: chat_def Let_def history_of_def split: option.splits)

lemma chat_history_grows:
  assumes "strip data_message \<noteq> []"
  shows "\<exists>r. history_of (fst (chat cfg oa ge h user_id data_message t_user t_ai t_reply)) user_id =
           history_of h user_id @
             [\<lparr>role = ''user'', content = strip data_message, timestamp = t_user\<rparr>,
              \<lparr>role = ''ai'', content = r, timestamp = t_ai\<rparr>]"
  unfolding chat_accepts [OF assms] by (simp add: history_of_def)

lemma foldl_build_messages_step:
  "foldl build_messages_step ms items =
     ms @ map history_item_message [item \<leftarrow> items. content item \<noteq> []]"
  by (induction items arbitrary: ms)
     (auto simp: build_messages_step_def history_item_message_def Let_def)

lemma build_messages_eq:
  "build_messages h user_id current_message =
     \<lparr>role = ''system'', content = web_system_prompt\<rparr> #
     map history_item_message
       [item \<leftarrow> last_entries 20 (history_of h user_id). content item \<noteq> []] @
     [\<lparr>role = ''user'', content = current_message\<rparr>]"
  by (simp add: build_messages_def foldl_build_messages_step)

lemma length_build_messages: "length (build_messages h user_id current_message) \<le> 22"
proof -
  let ?window = "last_entries 20 (history_of h user_id)"
  have "length [item \<leftarrow> ?window. content item \<noteq> []] \<le> length ?window"
    by (rule length_filter_le)
  also have "\<dots> \<le> 20" by (rule length_last_entries) simp
  finally show ?thesis by (simp add: build_messages_eq)
qed







lemma web_run_snoc:
  "web_run cfg oa ge (requests @ [(user_id, data_message, t_user, t_ai, t_reply)]) =
     fst (chat cfg oa ge (web_run cfg oa ge requests) user_id data_message t_user t_ai t_reply)"
  by (simp add: web_run_def)


lemma chat_history_other:
  "v \<noteq> user_id \<Longrightarrow>
   history_of (fst (chat cfg oa ge h user_id data_message t_user t_ai t_reply)) v =
     history_of h v"
  by (cases "strip data_message = []")
     (simp_all add: chat_rejects_blank chat_accepts history_of_def)

lemma web_run_length:
  "length (history_of (web_run cfg oa ge (replicate n (user_id, ''hi'', t_user, t_ai, t_reply)))
             user_id) = 2 * n"
proof (induction n)
  case 0
  show ?case by (simp add: web_run_def history_of_def)
next
  case (Suc n)
  have s: "strip ''hi'' \<noteq> []" by (simp add: text_eval)
  have "replicate (Suc n) (user_id, ''hi'', t_user, t_ai, t_reply) =
        replicate n (user_id, ''hi'', t_user, t_ai, t_reply) @ [(user_id, ''hi'', t_user, t_ai, t_reply)]"
    by (simp add: replicate_append_same)
  then show ?case
    using chat_history_grows [OF s, of cfg oa ge
        "web_run cfg oa ge (replicate n (user_id, ''hi'', t_user, t_ai, t_reply))"
        user_id t_user t_ai t_reply] Suc.IH
    by (auto simp: web_run_snoc)
qed







section \<open>Failure of the provider call\<close>

lemma get_ai_response_failure:
  "provider_response cfg oa ge (build_conversation_context h user_id message) = Inl e \<Longrightarrow>
   get_ai_response cfg oa ge h user_id message = (h, failure_message e)"
  by (simp add: get_ai_response_def)

lemma provider_response_openai_raises:
  "select_provider cfg = OpenAI_branch \<Longrightarrow> oa (openai_model cfg) messages = Raises e \<Longrightarrow>
   provider_response cfg oa ge messages = Inl e"
  by (simp add: provider_response_def)

lemma chat_failure:
  assumes "strip data_message \<noteq> []"
    and "web_provider_response cfg oa ge
           (build_messages
              (h(user_id \<mapsto> history_of h user_id @
                   [\<lparr>role = ''user'', content = strip data_message, timestamp = t_user\<rparr>]))
              user_id (strip data_message)) = Inl e"
  shows "chat cfg oa ge h user_id data_message t_user t_ai t_reply =
     (h(user_id \<mapsto> history_of h user_id @
          [\<lparr>role = ''user'', content = strip data_message, timestamp = t_user\<rparr>,
           \<lparr>role = ''ai'', content = web_fallback_text, timestamp = t_ai\<rparr>]),
      Json_response web_fallback_text t_reply)"
  unfolding chat_accepts [OF assms(1)] using assms(2) by (simp add: generate_ai_response_def)

section \<open>Validation of the configuration\<close>

lemma validate_config_provider:
  assumes "validate_config c = Inr cfg"
  shows "ai_provider cfg = (if ai_provider c = ''gemini'' then ''gemini'' else ''openai'')"
    and "ai_provider cfg = ''openai'' \<Longrightarrow>
         openai_model cfg = (if openai_model c \<in> set valid_openai_models
                             then openai_model c else ''gpt-4o-mini'')"
    and "ai_provider cfg = ''gemini'' \<Longrightarrow>
         gemini_model cfg = (if gemini_model c \<in> set valid_gemini_models
                             then gemini_model c else ''gemini-1.5-flash'')"
  using assms
  by (auto simp: validate_config_def Let_def split: if_splits)

lemma mixed_case_config:
  "Config_init mixed_case_env =
     Inr \<lparr>discord_token = Some ''token'', ai_provider = ''gemini'',
          openai_api_key = None, openai_model = ''gpt-4o-mini'',
          gemini_api_key = Some ''key'', gemini_model = ''gemini-1.5-flash''\<rparr>"
  by (simp add: Config_init_def validate_config_def mixed_case_env_def getenv_default_def
        truthy_def valid_openai_models_def valid_gemini_models_def lower_def lower_char_def char_of_def bit_0
        text_eval)

section \<open>The chunker on two short sentences and a long word\<close>

lemma strip_trimmed_id:
  assumes "s \<noteq> []" "\<not> isspace (hd s)" "\<not> isspace (last s)"
  shows "strip s = s"
proof -
  have a: "dropWhile isspace s = s" using assms(1,2) by (cases s) auto
  have "rev s \<noteq> []" "\<not> isspace (hd (rev s))" using assms(1,3) by (simp_all add: hd_rev)
  then have "dropWhile isspace (rev s) = rev s" by (cases "rev s") auto
  then show ?thesis by (simp add: strip_def a)
qed

lemma re_split_sentences_replicate:
  "\<not> isspace x \<Longrightarrow> re_split_sentences acc (replicate n x) = [rev acc @ replicate n x]"
  by (induction n arbitrary: acc) (simp_all add: replicate_app_Cons_same)

lemma spec_words_replicate:
  "\<not> isspace x \<Longrightarrow>
   spec_words acc (replicate n x) = (if acc = [] \<and> n = 0 then [] else [rev acc @ replicate n x])"
  by (induction n arbitrary: acc) (simp_all add: replicate_app_Cons_same)

lemma x_not_space: "\<not> isspace CHR ''x''"
  by (simp add: isspace_def whitespace_chars_def)

lemma fused_sentences:
  "format_response (int n + 5) (''A. B. '' @ replicate n CHR ''x'') =
     [''A.B.'' @ replicate n CHR ''x'']"
proof -
  let ?xs = "replicate n CHR ''x''"
  have sp: "re_split_sentences [] (''A. B. '' @ ?xs) = [''A.'', ''B.'', ?xs]"
    using re_split_sentences_replicate [OF x_not_space, of "[]" n]
    by (simp add: isspace_def whitespace_chars_def is_sentence_end_def)
  have s1: "strip (''A.'' @ '' '') = ''A.''" "strip (''B.'' @ '' '') = ''B.''"
    by (simp_all add: text_eval)
  have "strip (?xs @ '' '') = strip ?xs" by (rule strip_snoc_space [OF isspace_blank])
  also have "\<dots> = ?xs"
  proof (cases n)
    case 0
    then show ?thesis by (simp add: strip_def)
  next
    case (Suc k)
    then show ?thesis using x_not_space by (intro strip_trimmed_id) simp_all
  qed
  finally have s3: "strip (?xs @ '' '') = ?xs" .
  have s4: "strip (''A.B.'' @ ?xs) = ''A.B.'' @ ?xs"
    using x_not_space
    by (intro strip_trimmed_id) (simp_all add: isspace_def whitespace_chars_def)
  have p: "pack_sentences (int n + 5) [] [] [''A.'', ''B.'', ?xs] = ([], ''A.B.'' @ ?xs)"
    using s1 s3 by simp
  have long: "\<not> int (length (''A. B. '' @ ?xs)) \<le> int n + 5" by simp
  show ?thesis
    unfolding format_response_def sp p using long s4 by simp
qed

section \<open>Claims about the response chunker\<close>

text \<open>
  Claim C7. For every text whose length is at most the limit \<open>L\<close>, the chunker returns
  exactly the one-element sequence holding the text, unmodified.
\<close>

theorem format_response_short:
  "int (length response) \<le> L \<Longrightarrow> format_response L response = [response]"
  by (simp add: format_response_def)

theorem format_response_short_witness:
  "int (length ''Hello. World.'') \<le> 1500 \<and>
   format_response 1500 ''Hello. World.'' = [''Hello. World.'']"
  using format_response_short [of "''Hello. World.''" 1500] by simp

text \<open>
  Claim C4. For every text and every limit \<open>L\<close>, every chunk that the chunker returns has
  length at most \<open>L\<close>, the only exception being a chunk that is a single sentence of the
  split longer than \<open>L\<close> (with its surrounding whitespace removed), which the algorithm
  does not split further.
\<close>

theorem format_response_chunk_length:
  "\<forall>c\<in>set (format_response L response).
     int (length c) \<le> L \<or>
     (\<exists>s\<in>set (re_split_sentences [] response).
        L < int (length s) \<and> c = strip (s @ '' ''))"
  using format_response_chunk_ok [of _ L response] unfolding chunk_ok_def by blast

theorem format_response_chunk_length_witness:
  "''Bcdefgh.'' \<in> set (format_response 5 ''A. Bcdefgh. C.'') \<and>
   ''C.'' \<in> set (format_response 5 ''A. Bcdefgh. C.'') \<and>
   int (length ''C.'') \<le> 5 \<and>
   ''Bcdefgh.'' \<in> set (re_split_sentences [] ''A. Bcdefgh. C.'') \<and>
   5 < int (length ''Bcdefgh.'') \<and> ''Bcdefgh.'' = strip (''Bcdefgh.'' @ '' '')"
  using format_response_chunk_length [of 5 "''A. Bcdefgh. C.''"]
  by (simp add: format_response_def text_eval)

text \<open>
  Claim C6 as stated, that every chunk is non-empty and trimmed for every input, fails
  where the text fits the limit: the empty text gives one empty chunk, and a short text
  with surrounding blanks is returned with them.
\<close>

theorem format_response_empty_untrimmed_counterexample:
  "[] \<in> set (format_response max_message_length []) \<and>
   '' hi '' \<in> set (format_response max_message_length '' hi '') \<and>
   \<not> trimmed '' hi ''"
  by (simp add: format_response_def max_message_length_def trimmed_def text_eval)

text \<open>
  Claim C6, as the code has it. A text that fits the limit is returned as the only chunk,
  unmodified, whatever it holds. For a longer text every chunk is trimmed of surrounding
  whitespace, and no chunk is empty when every sentence of the split holds a character
  that is not whitespace.
\<close>

theorem format_response_long_trimmed:
  "(int (length response) \<le> L \<longrightarrow> format_response L response = [response]) \<and>
   (L < int (length response) \<longrightarrow>
      (\<forall>c\<in>set (format_response L response). trimmed c) \<and>
      ((\<forall>s\<in>set (re_split_sentences [] response). has_text s) \<longrightarrow>
         (\<forall>c\<in>set (format_response L response). c \<noteq> [])))"
proof (intro conjI impI)
  assume "int (length response) \<le> L"
  then show "format_response L response = [response]" by (simp add: format_response_def)
next
  assume long: "L < int (length response)"
  obtain parts cur where p:
    "pack_sentences L [] [] (re_split_sentences [] response) = (parts, cur)"
    by (cases "pack_sentences L [] [] (re_split_sentences [] response)")
  have f: "format_response L response = (if cur \<noteq> [] then parts @ [strip cur] else parts)"
    using long p by (simp add: format_response_def)
  have "\<forall>c\<in>set parts. trimmed c"
    by (rule pack_sentences_trimmed [OF p]) simp
  then show "\<forall>c\<in>set (format_response L response). trimmed c"
    unfolding f using trimmed_strip by auto
  assume "\<forall>s\<in>set (re_split_sentences [] response). has_text s"
  then have "(\<forall>c\<in>set parts. c \<noteq> []) \<and> (cur = [] \<or> has_text cur)"
    by (intro pack_sentences_nonempty [OF p]) simp_all
  then show "\<forall>c\<in>set (format_response L response). c \<noteq> []"
    unfolding f using strip_nonempty by auto
qed

theorem format_response_long_trimmed_witness:
  "5 < int (length ''A. B. C.'') \<and>
   re_split_sentences [] ''A. B. C.'' = [''A.'', ''B.'', ''C.''] \<and>
   has_text ''A.'' \<and> has_text ''B.'' \<and> has_text ''C.'' \<and>
   format_response 5 ''A. B. C.'' = [''A.B.'', ''C.''] \<and>
   trimmed ''A.B.'' \<and> trimmed ''C.'' \<and> ''A.B.'' \<noteq> [] \<and> ''C.'' \<noteq> []"
  using format_response_long_trimmed [of "''A. B. C.''" 5]
  by (simp add: format_response_def has_text_def trimmed_def text_eval)

section \<open>Claims about the conversation history of the bot cog\<close>

text \<open>
  Claim C10. For every user id, the history that the bot cog stores has even length and
  alternates roles, \<open>user\<close> at the even indices and \<open>assistant\<close> at the odd ones; an
  update appends one such pair and trimming drops an even number of entries from the
  front, so no pair is split.
\<close>

theorem cog_history_alternates:
  "even (length (history_of (cog_run exchanges) user_id)) \<and>
   (\<forall>i<length (history_of (cog_run exchanges) user_id).
      role (history_of (cog_run exchanges) user_id ! i) =
        (if even i then ''user'' else ''assistant'')) \<and>
   (\<exists>k. history_of (update_conversation_history (cog_run exchanges) user_id m a) user_id =
          drop (2 * k)
            (history_of (cog_run exchanges) user_id @
               [\<lparr>role = ''user'', content = m\<rparr>, \<lparr>role = ''assistant'', content = a\<rparr>]))"
proof -
  let ?hist = "history_of (cog_run exchanges) user_id"
  let ?pair = "[\<lparr>role = ''user'', content = m\<rparr>, \<lparr>role = ''assistant'', content = a\<rparr>]"
  have alt: "alternating ?hist" by (rule alternating_cog_run)
  have "even (length (?hist @ ?pair))" using alternating_even [OF alt] by simp
  then have "\<exists>k. last_entries (2 * max_history_length) (?hist @ ?pair) =
               drop (2 * k) (?hist @ ?pair)"
    by (rule last_entries_even_drop) simp
  then show ?thesis
    using alternating_even [OF alt] alternating_nth [OF alt]
    by (simp add: history_of_update_same)
qed

theorem cog_history_alternates_witness:
  "(1::nat) < length (history_of (cog_run [(7, ''hi'', ''hello'')]) 7) \<and>
   role (history_of (cog_run [(7, ''hi'', ''hello'')]) 7 ! 1) = ''assistant'' \<and>
   even (length (history_of (cog_run [(7, ''hi'', ''hello'')]) 7))"
  using cog_history_alternates [of "[(7, ''hi'', ''hello'')]" 7]
  by (simp add: cog_run_def update_conversation_history_def history_of_def
        max_history_length_def Let_def)

text \<open>
  Claim C1 as stated, that every stored history has at most 20 entries after every
  append, fails on the store of the web server: eleven chat requests of one user leave
  22 entries.
\<close>

theorem web_history_unbounded_counterexample:
  "\<not> length (history_of
       (web_run example_config answering_openai unused_gemini
          (replicate 11 (''anonymous'', ''hi'', ''t1'', ''t2'', ''t3''))) ''anonymous'')
     \<le> 2 * max_history_length"
  by (simp add: web_run_length max_history_length_def)

text \<open>
  Claim C1, as the code has it. In the bot cog, for every user id and every sequence of
  recorded exchanges, the stored history has at most \<open>2 * max_history_length\<close> (20)
  entries after every update, and they are the most recent entries in insertion order.
  The store of the web server is never trimmed: a chat request with a message that is
  not blank appends two entries to the user's history and removes none; only the prompt
  built from the store is limited to the last 20 stored entries.
\<close>

theorem history_bounded_and_recent:
  "length (history_of (cog_run exchanges) user_id) \<le> 2 * max_history_length \<and>
   history_of (cog_run exchanges) user_id =
     last_entries (2 * max_history_length) (exchange_entries user_id exchanges) \<and>
   (strip data_message \<noteq> [] \<longrightarrow>
      (\<exists>r. history_of (fst (chat cfg oa ge h web_user data_message t_user t_ai t_reply))
              web_user =
            history_of h web_user @
              [\<lparr>role = ''user'', content = strip data_message, timestamp = t_user\<rparr>,
               \<lparr>role = ''ai'', content = r, timestamp = t_ai\<rparr>])) \<and>
   build_messages h web_user current_message =
     \<lparr>role = ''system'', content = web_system_prompt\<rparr> #
     map history_item_message
       [item \<leftarrow> last_entries 20 (history_of h web_user). content item \<noteq> []] @
     [\<lparr>role = ''user'', content = current_message\<rparr>]"
proof (intro conjI impI)
  show "length (history_of (cog_run exchanges) user_id) \<le> 2 * max_history_length"
    unfolding cog_run_history
    by (rule length_last_entries) (simp add: max_history_length_def)
  show "history_of (cog_run exchanges) user_id =
     last_entries (2 * max_history_length) (exchange_entries user_id exchanges)"
    by (rule cog_run_history)
  show "build_messages h web_user current_message =
     \<lparr>role = ''system'', content = web_system_prompt\<rparr> #
     map history_item_message
       [item \<leftarrow> last_entries 20 (history_of h web_user). content item \<noteq> []] @
     [\<lparr>role = ''user'', content = current_message\<rparr>]"
    by (rule build_messages_eq)
next
  assume "strip data_message \<noteq> []"
  then show "\<exists>r. history_of (fst (chat cfg oa ge h web_user data_message t_user t_ai t_reply))
              web_user =
            history_of h web_user @
              [\<lparr>role = ''user'', content = strip data_message, timestamp = t_user\<rparr>,
               \<lparr>role = ''ai'', content = r, timestamp = t_ai\<rparr>]"
    by (rule chat_history_grows)
qed

theorem history_bounded_and_recent_witness:
  "strip ''hi'' \<noteq> [] \<and>
   length (history_of (cog_run [(7, ''hi'', ''hello'')]) 7) \<le> 2 * max_history_length \<and>
   history_of (cog_run [(7, ''hi'', ''hello'')]) 7 =
     [\<lparr>role = ''user'', content = ''hi''\<rparr>, \<lparr>role = ''assistant'', content = ''hello''\<rparr>] \<and>
   history_of (fst (chat example_config answering_openai unused_gemini Map.empty
                      ''anonymous'' ''hi'' ''t1'' ''t2'' ''t3'')) ''anonymous'' =
     [\<lparr>role = ''user'', content = ''hi'', timestamp = ''t1''\<rparr>,
      \<lparr>role = ''ai'', content = ''Hello!'', timestamp = ''t2''\<rparr>]"
  using history_bounded_and_recent [of "[(7, ''hi'', ''hello'')]" 7 "''hi''"
      example_config answering_openai unused_gemini Map.empty "''anonymous''"
      "''t1''" "''t2''" "''t3''" "''x''"]
  by (simp add: exchange_entries_def last_entries_def max_history_length_def
        chat_def generate_ai_response_def web_provider_response_def select_provider_def
        example_config_def answering_openai_def history_of_def Let_def text_eval)

section \<open>Claims about the prompt context\<close>



section \<open>Claims about provider failures\<close>

text \<open>
  Claim C2 as stated, that a failed provider call appends nothing, fails on the web
  server: with a provider that raises the rate-limit error, one chat request on the
  empty store leaves the user's message and the fallback text in the history.
\<close>

theorem web_failure_recorded_counterexample:
  "history_of Map.empty ''anonymous'' = ([] :: history_item list) \<and>
   chat example_config rate_limited_openai unused_gemini Map.empty
     ''anonymous'' ''hi'' ''t1'' ''t2'' ''t3'' =
     (Map.empty(''anonymous'' \<mapsto>
        [\<lparr>role = ''user'', content = ''hi'', timestamp = ''t1''\<rparr>,
         \<lparr>role = ''ai'', content = web_fallback_text, timestamp = ''t2''\<rparr>]),
      Json_response web_fallback_text ''t3'')"
  by (simp add: chat_def generate_ai_response_def web_provider_response_def
        select_provider_def example_config_def rate_limited_openai_def history_of_def
        Let_def text_eval)

text \<open>
  Claim C2, as the code has it. In the bot cog, when the provider call fails, the call
  returns the failure message of the exception and the store is what it was before; for
  the rate-limit error that is the high-traffic message. In the web server the user's
  message is stored before the provider is called, and a failed call yields the fallback
  text, which is returned and stored as the \<open>ai\<close> entry: a failed exchange adds
  two entries to the web history.
\<close>

theorem failed_exchange_effect:
  "(provider_response cfg oa ge (build_conversation_context h user_id message) = Inl e \<longrightarrow>
      get_ai_response cfg oa ge h user_id message = (h, failure_message e)) \<and>
   (select_provider cfg = OpenAI_branch \<and>
    oa (openai_model cfg) (build_conversation_context h user_id message) = Raises RateLimitError \<longrightarrow>
      get_ai_response cfg oa ge h user_id message =
        (h, ''I'm experiencing high traffic right now. Please try again in a moment.'')) \<and>
   (strip data_message \<noteq> [] \<and>
    web_provider_response cfg oa ge
      (build_messages
         (w(web_user \<mapsto> history_of w web_user @
              [\<lparr>role = ''user'', content = strip data_message, timestamp = t_user\<rparr>]))
         web_user (strip data_message)) = Inl e' \<longrightarrow>
      chat cfg oa ge w web_user data_message t_user t_ai t_reply =
        (w(web_user \<mapsto> history_of w web_user @
             [\<lparr>role = ''user'', content = strip data_message, timestamp = t_user\<rparr>,
              \<lparr>role = ''ai'', content = web_fallback_text, timestamp = t_ai\<rparr>]),
         Json_response web_fallback_text t_reply))"
proof (intro conjI impI)
  assume "provider_response cfg oa ge (build_conversation_context h user_id message) = Inl e"
  then show "get_ai_response cfg oa ge h user_id message = (h, failure_message e)"
    by (rule get_ai_response_failure)
next
  assume "select_provider cfg = OpenAI_branch \<and>
    oa (openai_model cfg) (build_conversation_context h user_id message) = Raises RateLimitError"
  then have "provider_response cfg oa ge (build_conversation_context h user_id message) =
      Inl RateLimitError"
    by (simp add: provider_response_openai_raises)
  then show "get_ai_response cfg oa ge h user_id message =
        (h, ''I'm experiencing high traffic right now. Please try again in a moment.'')"
    by (simp add: get_ai_response_failure)
next
  assume "strip data_message \<noteq> [] \<and>
    web_provider_response cfg oa ge
      (build_messages
         (w(web_user \<mapsto> history_of w web_user @
              [\<lparr>role = ''user'', content = strip data_message, timestamp = t_user\<rparr>]))
         web_user (strip data_message)) = Inl e'"
  then show "chat cfg oa ge w web_user data_message t_user t_ai t_reply =
        (w(web_user \<mapsto> history_of w web_user @
             [\<lparr>role = ''user'', content = strip data_message, timestamp = t_user\<rparr>,
              \<lparr>role = ''ai'', content = web_fallback_text, timestamp = t_ai\<rparr>]),
         Json_response web_fallback_text t_reply)"
    by (simp add: chat_failure)
qed

theorem failed_exchange_effect_witness:
  "select_provider example_config = OpenAI_branch \<and>
   rate_limited_openai (openai_model example_config)
     (build_conversation_context Map.empty 7 ''hi'') = Raises RateLimitError \<and>
   provider_response example_config rate_limited_openai unused_gemini
     (build_conversation_context Map.empty 7 ''hi'') = Inl RateLimitError \<and>
   get_ai_response example_config rate_limited_openai unused_gemini Map.empty 7 ''hi'' =
     (Map.empty, ''I'm experiencing high traffic right now. Please try again in a moment.'') \<and>
   strip ''hi'' \<noteq> [] \<and>
   fst (chat example_config rate_limited_openai unused_gemini Map.empty
          ''anonymous'' ''hi'' ''t1'' ''t2'' ''t3'') ''anonymous'' =
     Some [\<lparr>role = ''user'', content = ''hi'', timestamp = ''t1''\<rparr>,
           \<lparr>role = ''ai'', content = web_fallback_text, timestamp = ''t2''\<rparr>]"
  using failed_exchange_effect [of example_config rate_limited_openai unused_gemini
      Map.empty 7 "''hi''" RateLimitError "''hi''" Map.empty "''anonymous''" "''t1''"
      RateLimitError "''t2''" "''t3''"]
  by (simp add: provider_response_def web_provider_response_def select_provider_def
        example_config_def rate_limited_openai_def history_of_def text_eval)

text \<open>
  Claim C3 at an input where the code departs from it: with the OpenAI provider active, a
  response whose content is three blanks makes \<open>_get_ai_response\<close> of the bot cog return
  the empty string and record it as the assistant entry of the history.
\<close>

theorem openai_blank_response_recorded:
  "get_ai_response example_config blank_openai unused_gemini Map.empty 7 ''hi'' =
     (Map.empty(7 \<mapsto> [\<lparr>role = ''user'', content = ''hi''\<rparr>,
                        \<lparr>role = ''assistant'', content = []\<rparr>]), [])"
  by (simp add: get_ai_response_def provider_response_def select_provider_def
        example_config_def blank_openai_def update_conversation_history_def
        history_of_def max_history_length_def Let_def text_eval)

section \<open>Claims about the configuration\<close>

text \<open>
  Claim C9 as stated, that any model identifier outside its provider's allow-list is
  replaced at construction time, fails for the provider that is not active: with OpenAI
  selected, a Gemini model outside the allow-list stays in the configuration.
\<close>

theorem inactive_model_unvalidated_counterexample:
  "Config_init inactive_model_env =
     Inr \<lparr>discord_token = Some ''token'', ai_provider = ''openai'',
          openai_api_key = Some ''key'', openai_model = ''gpt-4o-mini'',
          gemini_api_key = None, gemini_model = ''bogus''\<rparr> \<and>
   ''bogus'' \<notin> set valid_gemini_models"
  by (simp add: Config_init_def validate_config_def inactive_model_env_def getenv_default_def
        truthy_def valid_openai_models_def valid_gemini_models_def lower_def lower_char_def char_of_def bit_0
        text_eval)

text \<open>
  Claim C9, as the code has it. The provider identifier of the environment is read
  without regard to case and surrounding whitespace; every value other than \<open>gemini\<close>
  becomes \<open>openai\<close> when the configuration is constructed, and the model identifier of
  the active provider is replaced by that provider's default when it is outside the
  allow-list. So after a construction that succeeds, the per-call test never takes the
  branch that raises "Unsupported AI provider".
  The model identifier of the provider that is not active is left as the environment
  gives it.
\<close>

theorem provider_resolved_at_construction:
  assumes "Config_init env = Inr cfg"
  shows "select_provider cfg \<noteq> Unsupported_branch \<and>
    ai_provider cfg =
      (if lower (strip (let v = getenv_default env ''AI_PROVIDER'' ''openai''
                        in if v \<noteq> [] then v else ''openai'')) = ''gemini''
       then ''gemini'' else ''openai'') \<and>
    (select_provider cfg = OpenAI_branch \<longrightarrow>
       openai_model cfg \<in> set valid_openai_models \<and>
       openai_model cfg =
         (if getenv_default env ''OPENAI_MODEL'' ''gpt-4o-mini'' \<in> set valid_openai_models
          then getenv_default env ''OPENAI_MODEL'' ''gpt-4o-mini'' else ''gpt-4o-mini'')) \<and>
    (select_provider cfg = Gemini_branch \<longrightarrow>
       gemini_model cfg \<in> set valid_gemini_models \<and>
       gemini_model cfg =
         (if getenv_default env ''GEMINI_MODEL'' ''gemini-1.5-flash'' \<in> set valid_gemini_models
          then getenv_default env ''GEMINI_MODEL'' ''gemini-1.5-flash''
          else ''gemini-1.5-flash''))"
proof -
  note v = validate_config_provider [OF assms [unfolded Config_init_def]]
  have p: "ai_provider cfg =
      (if lower (strip (let v = getenv_default env ''AI_PROVIDER'' ''openai''
                        in if v \<noteq> [] then v else ''openai'')) = ''gemini''
       then ''gemini'' else ''openai'')"
    using v(1) by simp
  have s: "select_provider cfg \<noteq> Unsupported_branch"
    using p by (simp add: select_provider_def)
  have o: "select_provider cfg = OpenAI_branch \<Longrightarrow>
       openai_model cfg \<in> set valid_openai_models \<and>
       openai_model cfg =
         (if getenv_default env ''OPENAI_MODEL'' ''gpt-4o-mini'' \<in> set valid_openai_models
          then getenv_default env ''OPENAI_MODEL'' ''gpt-4o-mini'' else ''gpt-4o-mini'')"
  proof -
    assume "select_provider cfg = OpenAI_branch"
    then have "ai_provider cfg = ''openai''"
      by (simp add: select_provider_def split: if_splits)
    from v(2) [OF this] show ?thesis by (simp add: valid_openai_models_def)
  qed
  have g: "select_provider cfg = Gemini_branch \<Longrightarrow>
       gemini_model cfg \<in> set valid_gemini_models \<and>
       gemini_model cfg =
         (if getenv_default env ''GEMINI_MODEL'' ''gemini-1.5-flash'' \<in> set valid_gemini_models
          then getenv_default env ''GEMINI_MODEL'' ''gemini-1.5-flash''
          else ''gemini-1.5-flash'')"
  proof -
    assume "select_provider cfg = Gemini_branch"
    then have "ai_provider cfg = ''gemini''"
      by (simp add: select_provider_def split: if_splits)
    from v(3) [OF this] show ?thesis by (simp add: valid_gemini_models_def)
  qed
  from p s o g show ?thesis by blast
qed

theorem provider_resolved_at_construction_witness:
  "Config_init mixed_case_env =
     Inr \<lparr>discord_token = Some ''token'', ai_provider = ''gemini'',
          openai_api_key = None, openai_model = ''gpt-4o-mini'',
          gemini_api_key = Some ''key'', gemini_model = ''gemini-1.5-flash''\<rparr> \<and>
   select_provider
     \<lparr>discord_token = Some ''token'', ai_provider = ''gemini'',
      openai_api_key = None, openai_model = ''gpt-4o-mini'',
      gemini_api_key = Some ''key'', gemini_model = ''gemini-1.5-flash''\<rparr> = Gemini_branch \<and>
   ''gemini-1.5-flash'' \<in> set valid_gemini_models"
  using provider_resolved_at_construction [OF mixed_case_config] mixed_case_config
  by (simp add: select_provider_def)

section \<open>The chunker and the words of the text\<close>

text \<open>
  Claim C5 at an input where the code departs from it: for a text of 2001 characters,
  two short sentences and a long word, the chunker returns one chunk in which the three
  are fused without the whitespace that separated them, so the chunks joined by single
  spaces do not have the words of the text.
\<close>

theorem chunker_fuses_sentences:
  "format_response max_message_length two_sentence_text =
     [''A.B.'' @ replicate 1995 CHR ''x''] \<and>
   spec_normalize_whitespace (join '' '' (format_response max_message_length two_sentence_text)) =
     [''A.B.'' @ replicate 1995 CHR ''x''] \<and>
   spec_normalize_whitespace two_sentence_text = [''A.'', ''B.'', replicate 1995 CHR ''x'']"
proof -
  have f: "format_response max_message_length two_sentence_text =
     [''A.B.'' @ replicate 1995 CHR ''x'']"
    using fused_sentences [of 1995] by (simp add: max_message_length_def two_sentence_text_def)
  have a: "spec_normalize_whitespace (''A.B.'' @ replicate 1995 CHR ''x'') =
     [''A.B.'' @ replicate 1995 CHR ''x'']"
    using spec_words_replicate [OF x_not_space, of "''.B.A''" 1995]
    by (simp add: spec_normalize_whitespace_def isspace_def whitespace_chars_def)
  have b: "spec_normalize_whitespace two_sentence_text = [''A.'', ''B.'', replicate 1995 CHR ''x'']"
    using spec_words_replicate [OF x_not_space, of "[]" 1995]
    by (simp add: spec_normalize_whitespace_def two_sentence_text_def isspace_def
          whitespace_chars_def)
  show ?thesis unfolding f using a b by simp
qed

end
